theory Spec2Isabelle
  imports Main "HOL-Library.AList"
begin

section \<open>Typed records (object.go)\<close>

text \<open>
  The repository holds two variants of the store: \<^verbatim>\<open>src/db.go\<close> with
  \<^verbatim>\<open>src/object.go\<close>, and \<^verbatim>\<open>src/unnamed/part_000\<close> with
  \<^verbatim>\<open>src/unnamed/part_004\<close>. The two object files agree on every function
  modelled here (the first only adds \<^verbatim>\<open>main\<close>), so one set of definitions stands
  for both. The two store files differ in \<^verbatim>\<open>listObjects\<close> and \<^verbatim>\<open>Store\<close>; those
  functions are modelled twice, with the suffix \<open>_db\<close> for \<^verbatim>\<open>src/db.go\<close> and
  \<open>_part0\<close> for \<^verbatim>\<open>src/unnamed/part_000\<close>.

  Go strings are byte sequences, hence \<^typ>\<open>string\<close>. A \<^verbatim>\<open>time.Time\<close> is kept as
  its year and an opaque position within that year; only the year matters to the code
  paths below (through \<^verbatim>\<open>json.Marshal\<close>).
\<close>

datatype time = Time (year: int) (in_year: nat)

definition zero_time :: time where
  \<comment> \<open>\<^verbatim>\<open>time.Time{}\<close>: January 1, year 1, 00:00:00 UTC\<close>
  "zero_time = Time 1 0"

text \<open>
  The interface \<^verbatim>\<open>Object\<close> has the two implementations \<^verbatim>\<open>*Person\<close> and
  \<^verbatim>\<open>*Animal\<close>; the selectors are the struct fields.
\<close>

datatype object =
    Person (Name: string) (ID: string) (LastName: string) (Birthday: string) (BirthDate: time)
  | Animal (Name: string) (ID: string) (Type: string) (OwnerID: string)

fun GetKind :: "object \<Rightarrow> string" where
  \<comment> \<open>\<^verbatim>\<open>reflect.TypeOf(p).String()\<close> on a pointer receiver in package \<^verbatim>\<open>main\<close>\<close>
  "GetKind (Person n i l b t) = ''*main.Person''"
| "GetKind (Animal n i t ow) = ''*main.Animal''"

definition GetID :: "object \<Rightarrow> string" where
  "GetID p = ID p"

definition GetName :: "object \<Rightarrow> string" where
  "GetName p = Name p"

fun SetID :: "string \<Rightarrow> object \<Rightarrow> object" where
  "SetID s (Person n i l b t) = Person n s l b t"
| "SetID s (Animal n i t ow) = Animal n s t ow"

section \<open>Errors\<close>

text \<open>
  The Go code builds its errors with \<^verbatim>\<open>errors.New\<close>; one constructor stands for each
  message. The last three are the errors of the libraries: a failing
  \<^verbatim>\<open>json.Marshal\<close>, a failing \<^verbatim>\<open>json.Unmarshal\<close>, and \<^verbatim>\<open>redis.Nil\<close> for a key
  that is not there.
\<close>

datatype error =
    MissingObjectName      \<comment> \<open>"missing object name"\<close>
  | MissingObjectKind      \<comment> \<open>"missing object kind"\<close>
  | RestrictedDelimiter    \<comment> \<open>"unexpected restricted delimiter in the key"\<close>
  | ObjectNotFound         \<comment> \<open>"object not found"\<close>
  | MultipleObjects        \<comment> \<open>"multiple objects with the same ID"\<close>
  | EmptyName              \<comment> \<open>"invalid request. empty name"\<close>
  | EmptyKind              \<comment> \<open>"invalid request. empty kind"\<close>
  | UnknownObjectType      \<comment> \<open>"unknown object type"\<close>
  | MarshalerError
  | UnmarshalError
  | RedisNil

section \<open>Serialisation (encoding/json)\<close>

text \<open>
  A backend value is either the JSON document that \<^verbatim>\<open>json.Marshal\<close> writes for a
  record, or some other text that \<^verbatim>\<open>json.Unmarshal\<close> rejects. The document is
  field-name-tagged: \<^verbatim>\<open>name\<close> and \<^verbatim>\<open>id\<close> are members of both struct types,
  \<^verbatim>\<open>last_name\<close>, \<^verbatim>\<open>birthday\<close>, \<^verbatim>\<open>birthdate\<close> of Person only, \<^verbatim>\<open>type\<close> and
  \<^verbatim>\<open>owner_id\<close> of Animal only. Field strings are taken to be valid UTF-8, which
  \<^verbatim>\<open>json.Marshal\<close> writes unchanged.
\<close>

datatype payload = Encoded object | Malformed string

fun Marshal :: "object \<Rightarrow> error + payload" where
  \<comment> \<open>\<^verbatim>\<open>time.Time.MarshalJSON\<close> fails for a year outside [0,9999]; nothing else can fail\<close>
  "Marshal (Person n i l b t) =
     (if 0 \<le> year t \<and> year t \<le> 9999 then Inr (Encoded (Person n i l b t)) else Inl MarshalerError)"
| "Marshal (Animal n i t ow) = Inr (Encoded (Animal n i t ow))"

fun Unmarshal_Animal :: "payload \<Rightarrow> error + object" where
  \<comment> \<open>\<^verbatim>\<open>json.Unmarshal([]byte(value), &Animal{})\<close>: unknown members are skipped\<close>
  "Unmarshal_Animal (Encoded (Animal n i t ow)) = Inr (Animal n i t ow)"
| "Unmarshal_Animal (Encoded (Person n i l b t)) = Inr (Animal n i [] [])"
| "Unmarshal_Animal (Malformed s) = Inl UnmarshalError"

fun Unmarshal_Person :: "payload \<Rightarrow> error + object" where
  \<comment> \<open>\<^verbatim>\<open>json.Unmarshal([]byte(value), &Person{})\<close>\<close>
  "Unmarshal_Person (Encoded (Person n i l b t)) = Inr (Person n i l b t)"
| "Unmarshal_Person (Encoded (Animal n i t ow)) = Inr (Person n i [] [] zero_time)"
| "Unmarshal_Person (Malformed s) = Inl UnmarshalError"

section \<open>Key codec\<close>

fun Count_delim :: "string \<Rightarrow> nat" where
  \<comment> \<open>\<^verbatim>\<open>strings.Count(key, "::")\<close>: non-overlapping occurrences, scanned from the left\<close>
  "Count_delim (a # b # rest) =
     (if a = CHR '':'' \<and> b = CHR '':'' then Suc (Count_delim rest) else Count_delim (b # rest))"
| "Count_delim _ = 0"

fun Contains_delim :: "string \<Rightarrow> bool" where
  \<comment> \<open>\<^verbatim>\<open>strings.Contains(s, "::")\<close>\<close>
  "Contains_delim (a # b # rest) = ((a = CHR '':'' \<and> b = CHR '':'') \<or> Contains_delim (b # rest))"
| "Contains_delim _ = False"

text \<open>
  \<^verbatim>\<open>getKind\<close> runs the regular expression \<^verbatim>\<open>^.*::(.*)$\<close> and returns its first
  group, or the empty string when the expression does not match. Under Go's default flags
  \<^verbatim>\<open>.\<close> matches any character except the newline and \<^verbatim>\<open>$\<close> matches only at the end
  of the text. The first \<^verbatim>\<open>.*\<close> is greedy: of all ways to match, the one with the
  longest first part wins, so the split points are tried from the right.
\<close>

definition dot_star :: "string \<Rightarrow> bool" where
  \<comment> \<open>\<^verbatim>\<open>.*\<close> can consume exactly this text\<close>
  "dot_star s \<longleftrightarrow> CHR 0x0A \<notin> set s"

definition submatch_at :: "string \<Rightarrow> nat \<Rightarrow> string option" where
  \<comment> \<open>the match whose first \<^verbatim>\<open>.*\<close> takes the first \<open>p\<close> bytes, if there is one\<close>
  "submatch_at key p =
     (if dot_star (take p key) \<and> take 2 (drop p key) = ''::'' \<and> dot_star (drop (p + 2) key)
      then Some (drop (p + 2) key) else None)"

fun try_split :: "string \<Rightarrow> nat \<Rightarrow> string option" where
  "try_split key 0 = submatch_at key 0"
| "try_split key (Suc p) =
     (case submatch_at key (Suc p) of Some k \<Rightarrow> Some k | None \<Rightarrow> try_split key p)"

definition FindStringSubmatch :: "string \<Rightarrow> string option" where
  \<comment> \<open>the first group of \<^verbatim>\<open>re.FindStringSubmatch(key)\<close>; \<open>None\<close> is the nil slice\<close>
  "FindStringSubmatch key = try_split key (length key)"

definition getKind :: "string \<Rightarrow> string" where
  "getKind key = (case FindStringSubmatch key of Some k \<Rightarrow> k | None \<Rightarrow> [])"

definition extractObject :: "string \<Rightarrow> payload \<Rightarrow> error + object" where
  "extractObject key v =
     (let kind = getKind key in
      if kind = GetKind (Animal [] [] [] []) then Unmarshal_Animal v
      else if kind = GetKind (Person [] [] [] [] zero_time) then Unmarshal_Person v
      else Inl UnknownObjectType)"

section \<open>The backend\<close>

text \<open>
  The Redis client is used through four commands. The backend is an association list
  from keys to values, in insertion order; \<^verbatim>\<open>KEYS\<close> lists the keys that match a
  glob pattern, in which \<^verbatim>\<open>*\<close> stands for any run of bytes. The other special
  characters of Redis patterns (\<^verbatim>\<open>?\<close>, \<^verbatim>\<open>[\<close>, \<^verbatim>\<open>\\<close>) are not modelled, and transport
  failures are left out: a command fails only when the key is not there.
\<close>

type_synonym backend = "(string \<times> payload) list"

fun glob :: "string \<Rightarrow> string \<Rightarrow> bool" where
  "glob [] s = (s = [])"
| "glob (p # ps) [] = (p = CHR ''*'' \<and> glob ps [])"
| "glob (p # ps) (c # cs) =
     (if p = CHR ''*'' then glob ps (c # cs) \<or> glob (p # ps) cs else p = c \<and> glob ps cs)"

definition redis_Keys :: "string \<Rightarrow> backend \<Rightarrow> string list" where
  "redis_Keys pattern db = filter (glob pattern) (map fst db)"

definition redis_Get :: "string \<Rightarrow> backend \<Rightarrow> error + payload" where
  "redis_Get key db = (case map_of db key of None \<Rightarrow> Inl RedisNil | Some v \<Rightarrow> Inr v)"

definition redis_Set :: "string \<Rightarrow> payload \<Rightarrow> backend \<Rightarrow> backend" where
  "redis_Set key v db = AList.update key v db"

definition redis_Del :: "string \<Rightarrow> backend \<Rightarrow> backend" where
  "redis_Del key db = AList.delete key db"

section \<open>Object store (db.go)\<close>

text \<open>
  \<^verbatim>\<open>uuid.New().String()\<close> is random; the generated text is the argument \<open>uid\<close> of the model of
  \<^verbatim>\<open>Store\<close>. Its shape is 36 bytes, lower-case hexadecimal digits with hyphens at
  offsets 8, 13, 18 and 23.
\<close>

definition hexdigit :: "char \<Rightarrow> bool" where
  "hexdigit c \<longleftrightarrow> c \<in> set ''0123456789abcdef''"

definition uuid_String :: "string \<Rightarrow> bool" where
  "uuid_String s \<longleftrightarrow>
     length s = 36 \<and> list_all (\<lambda>c. hexdigit c \<or> c = CHR ''-'') s \<and>
     filter (\<lambda>i. s ! i = CHR ''-'') [0..<36] = [8, 13, 18, 23]"

text \<open>
  \<^verbatim>\<open>listObjects\<close>. The result is Go's pair of the slice and the error. In
  \<^verbatim>\<open>src/db.go\<close> every value is decoded with the first key, \<^verbatim>\<open>keys[0]\<close>; in
  \<^verbatim>\<open>src/unnamed/part_000\<close> with its own key.
\<close>

fun listObjects_loop_db :: "backend \<Rightarrow> string \<Rightarrow> string list \<Rightarrow> object list \<Rightarrow> object list \<times> error option" where
  "listObjects_loop_db db key0 [] objects = (objects, None)"
| "listObjects_loop_db db key0 (key # keys) objects =
     (case redis_Get key db of
        Inl err \<Rightarrow> ([], Some err)
      | Inr v \<Rightarrow>
          (case extractObject key0 v of
             Inl err \<Rightarrow> ([], Some err)
           | Inr obj \<Rightarrow> listObjects_loop_db db key0 keys (objects @ [obj])))"

definition listObjects_db :: "string \<Rightarrow> backend \<Rightarrow> object list \<times> error option" where
  "listObjects_db pattern db =
     (case redis_Keys pattern db of
        [] \<Rightarrow> ([], None)
      | key0 # rest \<Rightarrow> listObjects_loop_db db key0 (key0 # rest) [])"

fun listObjects_loop_part0 :: "backend \<Rightarrow> string list \<Rightarrow> object list \<Rightarrow> object list \<times> error option" where
  "listObjects_loop_part0 db [] objects = (objects, None)"
| "listObjects_loop_part0 db (key # keys) objects =
     (case redis_Get key db of
        Inl err \<Rightarrow> ([], Some err)
      | Inr v \<Rightarrow>
          (case extractObject key v of
             Inl err \<Rightarrow> ([], Some err)
           | Inr obj \<Rightarrow> listObjects_loop_part0 db keys (objects @ [obj])))"

definition listObjects_part0 :: "string \<Rightarrow> backend \<Rightarrow> object list \<times> error option" where
  "listObjects_part0 pattern db =
     (case redis_Keys pattern db of
        [] \<Rightarrow> ([], None)
      | key # rest \<Rightarrow> listObjects_loop_part0 db (key # rest) [])"

text \<open>
  \<^verbatim>\<open>Store\<close> returns the caller's record as the call leaves it (\<^verbatim>\<open>SetID\<close> writes
  through the pointer), the error, and the backend. \<^verbatim>\<open>src/db.go\<close> serialises before
  it sets the id and has no check for empty names; \<^verbatim>\<open>src/unnamed/part_000\<close> checks
  first and sets the id before it serialises.
\<close>

definition Store_db :: "string \<Rightarrow> object \<Rightarrow> backend \<Rightarrow> object \<times> error option \<times> backend" where
  "Store_db uid obj db =
     (case Marshal obj of
        Inl err \<Rightarrow> (obj, Some err, db)
      | Inr v \<Rightarrow>
          (let obj' = SetID uid obj;
               key = uid @ ''::'' @ GetName obj' @ ''::'' @ GetKind obj'
           in if Count_delim key \<noteq> 2 then (obj', Some RestrictedDelimiter, db)
              else (obj', None, redis_Set key v db)))"

definition Store_part0 :: "string \<Rightarrow> object \<Rightarrow> backend \<Rightarrow> object \<times> error option \<times> backend" where
  "Store_part0 uid obj db =
     (if GetName obj = [] then (obj, Some MissingObjectName, db)
      else if GetKind obj = [] then (obj, Some MissingObjectKind, db)
      else
        (let obj' = SetID uid obj in
         case Marshal obj' of
           Inl err \<Rightarrow> (obj', Some err, db)
         | Inr v \<Rightarrow>
             (let key = uid @ ''::'' @ GetName obj' @ ''::'' @ GetKind obj'
              in if Count_delim key \<noteq> 2 then (obj', Some RestrictedDelimiter, db)
                 else (obj', None, redis_Set key v db))))"

text \<open>The remaining operations are the same text in both files.\<close>

definition GetObjectByID :: "string \<Rightarrow> backend \<Rightarrow> error + object" where
  "GetObjectByID uid db =
     (let keys = redis_Keys (uid @ ''::*::*'') db in
      if length keys = 0 then Inl ObjectNotFound
      else if length keys > 1 then Inl MultipleObjects
      else
        (case redis_Get (keys ! 0) db of
           Inl err \<Rightarrow> Inl err
         | Inr v \<Rightarrow> extractObject (keys ! 0) v))"

definition GetObjectsByName_db :: "string \<Rightarrow> backend \<Rightarrow> object list \<times> error option" where
  "GetObjectsByName_db name db =
     (if name = [] then ([], Some EmptyName) else listObjects_db (''*::'' @ name @ ''::*'') db)"

definition GetObjectsByName_part0 :: "string \<Rightarrow> backend \<Rightarrow> object list \<times> error option" where
  "GetObjectsByName_part0 name db =
     (if name = [] then ([], Some EmptyName) else listObjects_part0 (''*::'' @ name @ ''::*'') db)"

definition ListObjects_db :: "string \<Rightarrow> backend \<Rightarrow> object list \<times> error option" where
  "ListObjects_db kind db =
     (if kind = [] then ([], Some EmptyKind) else listObjects_db (''*::*::'' @ kind) db)"

definition ListObjects_part0 :: "string \<Rightarrow> backend \<Rightarrow> object list \<times> error option" where
  "ListObjects_part0 kind db =
     (if kind = [] then ([], Some EmptyKind) else listObjects_part0 (''*::*::'' @ kind) db)"

definition DeleteObject :: "string \<Rightarrow> backend \<Rightarrow> error option \<times> backend" where
  "DeleteObject uid db =
     (let keys = redis_Keys (uid @ ''::*::*'') db in
      if length keys = 0 then (None, db)
      else if length keys > 1 then (Some MultipleObjects, db)
      else (None, redis_Del (keys ! 0) db))"

section \<open>Sample inputs\<close>

text \<open>
  The records that \<^verbatim>\<open>db_test.go\<close> stores (\<^verbatim>\<open>getPerson\<close>, \<^verbatim>\<open>getAnimal\<close>; the birth
  date is in 1989), and two texts of the shape \<^verbatim>\<open>uuid.New().String()\<close> returns.
\<close>

definition getPerson :: "string \<Rightarrow> object" where
  "getPerson name = Person name [] ''Johnson'' ''01-02-1990'' (Time 1989 0)"

definition getAnimal :: "string \<Rightarrow> object" where
  "getAnimal name = Animal name [] ''Cat'' ''Johnson''"

definition uuid1 :: string where
  "uuid1 = ''123e4567-e89b-12d3-a456-426614174000''"

definition uuid2 :: string where
  "uuid2 = ''123e4567-e89b-12d3-a456-426614174001''"

section \<open>Counting delimiters\<close>

lemma uuid_String_chars:
  assumes "uuid_String s"
  shows "CHR '':'' \<notin> set s" and "CHR ''*'' \<notin> set s" and "CHR 0x0A \<notin> set s"
proof -
  from assms have all: "\<forall>c\<in>set s. hexdigit c \<or> c = CHR ''-''"
    by (simp add: uuid_String_def list_all_iff)
  have "\<not> hexdigit (CHR '':'')" "\<not> hexdigit (CHR ''*'')" "\<not> hexdigit (CHR 0x0A)"
    by (simp_all add: hexdigit_def)
  then show "CHR '':'' \<notin> set s"  "CHR ''*'' \<notin> set s" "CHR 0x0A \<notin> set s" using all by auto
qed

lemma Count_delim_no_colon: "CHR '':'' \<notin> set u \<Longrightarrow> Count_delim u = 0"
  by (induction u rule: Count_delim.induct) auto

lemma Count_delim_skip: "CHR '':'' \<notin> set u \<Longrightarrow> Count_delim (u @ v) = Count_delim v"
proof (induction u)
  case Nil
  then show ?case by simp
next
  case (Cons a u)
  then show ?case by (cases "u @ v") auto
qed

lemma Count_delim_delim_kind: "CHR '':'' \<notin> set k \<Longrightarrow> Count_delim (CHR '':'' # CHR '':'' # k) = 1"
  by (simp add: Count_delim_no_colon)

lemma Count_delim_colon3_kind: "CHR '':'' \<notin> set k \<Longrightarrow> Count_delim (c # CHR '':'' # CHR '':'' # k) = 1"
proof (cases k)
  case Nil
  then show ?thesis by simp
next
  case (Cons a list)
  assume "CHR '':'' \<notin> set k"
  with Cons have "a \<noteq> CHR '':''" and "CHR '':'' \<notin> set (a # list)" by auto
  then show ?thesis using Cons by (simp add: Count_delim_no_colon)
qed

lemma Count_delim_tail_ge:
  "CHR '':'' \<notin> set k \<Longrightarrow> 1 \<le> Count_delim (n @ ''::'' @ k)"
proof (induction n rule: Count_delim.induct)
  case (1 a b rest)
  then show ?case by simp
qed (simp_all del: Count_delim.simps add: Count_delim_delim_kind Count_delim_colon3_kind)

lemma Count_delim_tail_plain:
  "CHR '':'' \<notin> set k \<Longrightarrow> \<not> Contains_delim n \<Longrightarrow> Count_delim (n @ ''::'' @ k) = 1"
proof (induction n rule: Count_delim.induct)
  case (1 a b rest)
  then show ?case by (cases "a = CHR '':''"; cases "b = CHR '':''") simp_all
qed (simp_all del: Count_delim.simps add: Count_delim_delim_kind Count_delim_colon3_kind)

lemma Count_delim_tail_delim:
  "CHR '':'' \<notin> set k \<Longrightarrow> Contains_delim n \<Longrightarrow> 2 \<le> Count_delim (n @ ''::'' @ k)"
proof (induction n rule: Count_delim.induct)
  case (1 a b rest)
  then show ?case using Count_delim_tail_ge[of k rest]
    by (cases "a = CHR '':''"; cases "b = CHR '':''") simp_all
qed simp_all

lemma GetKind_no_colon: "CHR '':'' \<notin> set (GetKind obj)"
  by (cases obj) simp_all

lemma Count_delim_key:
  assumes "CHR '':'' \<notin> set u" and "CHR '':'' \<notin> set k"
  shows "Count_delim (u @ ''::'' @ n @ ''::'' @ k) = 2 \<longleftrightarrow> \<not> Contains_delim n"
proof -
  have "Count_delim (u @ ''::'' @ n @ ''::'' @ k) = Suc (Count_delim (n @ ''::'' @ k))"
    using assms(1) by (simp add: Count_delim_skip)
  then show ?thesis
    using Count_delim_tail_plain[OF assms(2), of n] Count_delim_tail_delim[OF assms(2), of n]
    by auto
qed

section \<open>The kind of a key\<close>

lemma Contains_delim_at: "take 2 (drop p s) = ''::'' \<Longrightarrow> Contains_delim s"
proof (induction s arbitrary: p)
  case Nil
  then show ?case by simp
next
  case (Cons a s)
  show ?case
  proof (cases p)
    case 0
    with Cons.prems show ?thesis by (cases s) auto
  next
    case (Suc q)
    with Cons.prems have "take 2 (drop q s) = ''::''" by simp
    then have "Contains_delim s" by (rule Cons.IH)
    then show ?thesis by (cases s) auto
  qed
qed

lemma try_split_found:
  "p0 \<le> n \<Longrightarrow> submatch_at key p0 = Some k \<Longrightarrow>
   (\<forall>p. p0 < p \<and> p \<le> n \<longrightarrow> submatch_at key p = None) \<Longrightarrow> try_split key n = Some k"
proof (induction n)
  case 0
  then show ?case by simp
next
  case (Suc n)
  show ?case
  proof (cases "p0 = Suc n")
    case True
    with Suc.prems show ?thesis by simp
  next
    case False
    with Suc.prems have "p0 \<le> n" and "submatch_at key (Suc n) = None" by auto
    moreover have "try_split key n = Some k" using Suc.IH Suc.prems \<open>p0 \<le> n\<close> by auto
    ultimately show ?thesis by simp
  qed
qed

lemma try_split_none: "(\<forall>p\<le>n. submatch_at key p = None) \<Longrightarrow> try_split key n = None"
  by (induction n) auto

lemma submatch_at_newline: "CHR 0x0A \<in> set key \<Longrightarrow> submatch_at key p = None"
proof -
  assume nl: "CHR 0x0A \<in> set key"
  have "key = take p key @ take 2 (drop p key) @ drop (p + 2) key"
    by (metis add.commute append_take_drop_id drop_drop)
  then have "set key = set (take p key) \<union> set (take 2 (drop p key)) \<union> set (drop (p + 2) key)"
    by (metis set_append sup_assoc)
  with nl show ?thesis by (auto simp: submatch_at_def dot_star_def)
qed

lemma getKind_newline: "CHR 0x0A \<in> set key \<Longrightarrow> getKind key = []"
  by (simp add: getKind_def FindStringSubmatch_def try_split_none submatch_at_newline)

lemma getKind_last_delim:
  assumes nl: "CHR 0x0A \<notin> set x" "CHR 0x0A \<notin> set k"
    and last: "\<not> Contains_delim (CHR '':'' # k)"
  shows "getKind (x @ ''::'' @ k) = k"
proof -
  let ?key = "x @ ''::'' @ k"
  have here: "submatch_at ?key (length x) = Some k"
    using nl by (simp add: submatch_at_def dot_star_def)
  have later: "submatch_at ?key p = None" if "length x < p" for p
  proof -
    from that obtain q where q: "p = Suc (length x + q)" 
      by (metis less_iff_Suc_add)
    have "drop p ?key = drop q (CHR '':'' # k)" by (simp add: q)
    then have "take 2 (drop p ?key) \<noteq> ''::''"
      using last Contains_delim_at[of q "CHR '':'' # k"] by auto
    then show ?thesis by (simp add: submatch_at_def)
  qed
  have "try_split ?key (length ?key) = Some k"
  proof (rule try_split_found[OF _ here])
    show "length x \<le> length ?key" by simp
    show "\<forall>p. length x < p \<and> p \<le> length ?key \<longrightarrow> submatch_at ?key p = None"
      using later by blast
  qed
  then show ?thesis by (simp add: getKind_def FindStringSubmatch_def)
qed

lemma Contains_delim_no_colon: "CHR '':'' \<notin> set s \<Longrightarrow> \<not> Contains_delim s"
  by (induction s rule: Contains_delim.induct) auto

lemma getKind_built_key:
  assumes "CHR 0x0A \<notin> set u" "CHR 0x0A \<notin> set n"
  shows "getKind (u @ ''::'' @ n @ ''::'' @ GetKind obj) = GetKind obj"
proof -
  have k: "CHR 0x0A \<notin> set (GetKind obj)" "\<not> Contains_delim (CHR '':'' # GetKind obj)"
    by (cases obj; simp)+
  have "getKind ((u @ ''::'' @ n) @ ''::'' @ GetKind obj) = GetKind obj"
    by (rule getKind_last_delim) (use assms k in auto)
  then show ?thesis by simp
qed

section \<open>Patterns and the backend\<close>

lemma glob_literal_prefix: "CHR ''*'' \<notin> set p \<Longrightarrow> glob (p @ q) (p @ s) = glob q s"
  by (induction p) auto

lemma glob_star_skip: "glob q s \<Longrightarrow> glob (CHR ''*'' # q) (t @ s)"
proof (induction t)
  case Nil
  then show ?case by (cases s) auto
next
  case (Cons c t)
  then show ?case by simp
qed

lemma glob_star_all: "glob ''*'' s"
  using glob_star_skip[of "[]" "[]" s] by simp

lemma glob_id_pattern:
  assumes "CHR ''*'' \<notin> set u"
  shows "glob (u @ ''::*::*'') (u @ ''::'' @ n @ ''::'' @ k)"
proof -
  have "glob ''::*'' (''::'' @ k)" using glob_star_all[of k] by simp
  then have "glob ''*::*'' (n @ ''::'' @ k)" by (rule glob_star_skip)
  then have "glob ''::*::*'' (''::'' @ n @ ''::'' @ k)" by simp
  then show ?thesis
    using glob_literal_prefix[OF assms, of "''::*::*''" "''::'' @ n @ ''::'' @ k"] by simp
qed

lemma map_fst_update:
  "map fst (AList.update k v db) = (if k \<in> fst ` set db then map fst db else map fst db @ [k])"
  by (induction db) auto

lemma map_fst_delete: "map fst (AList.delete k db) = filter (\<lambda>x. x \<noteq> k) (map fst db)"
  by (induction db) auto

lemma redis_Keys_Del: "redis_Keys pat (redis_Del k db) = filter (\<lambda>x. x \<noteq> k) (redis_Keys pat db)"
  by (auto simp: redis_Keys_def redis_Del_def map_fst_delete intro: filter_cong)

lemma redis_Keys_Set_fresh:
  assumes "redis_Keys pat db = []" and "glob pat k"
  shows "redis_Keys pat (redis_Set k v db) = [k]"
proof -
  from assms have "k \<notin> fst ` set db"
    by (auto simp: redis_Keys_def filter_empty_conv)
  then show ?thesis using assms by (simp add: redis_Keys_def redis_Set_def map_fst_update)
qed

lemma redis_Get_Set: "redis_Get k (redis_Set k v db) = Inr v"
  by (simp add: redis_Get_def redis_Set_def update_conv')

lemma redis_Get_listed:
  assumes "k \<in> set (redis_Keys pat db)"
  shows "\<exists>v. redis_Get k db = Inr v"
proof -
  from assms have "k \<in> fst ` set db" by (auto simp: redis_Keys_def)
  then obtain v where "map_of db k = Some v"
    by (metis domD dom_map_of_conv_image_fst)
  then show ?thesis by (simp add: redis_Get_def)
qed

lemma Marshal_SetID: "Marshal (SetID uid obj) = Inr v \<Longrightarrow> v = Encoded (SetID uid obj)"
  by (cases obj) (auto split: if_splits)

lemma extractObject_own_kind:
  "getKind key = GetKind obj \<Longrightarrow> extractObject key (Encoded obj) = Inr obj"
  by (cases obj) (simp_all add: extractObject_def)

lemma GetName_SetID: "GetName (SetID uid obj) = GetName obj"
  by (cases obj) (simp_all add: GetName_def)

lemma GetKind_SetID: "GetKind (SetID uid obj) = GetKind obj"
  by (cases obj) simp_all

lemma Store_part0_success:
  assumes "Store_part0 uid obj db = (obj', None, db')"
  shows "obj' = SetID uid obj"
    and "db' = redis_Set (uid @ ''::'' @ GetName obj @ ''::'' @ GetKind obj) (Encoded (SetID uid obj)) db"
    and "Count_delim (uid @ ''::'' @ GetName obj @ ''::'' @ GetKind obj) = 2"
  using assms
  by (auto simp: Store_part0_def Let_def GetName_SetID GetKind_SetID
      split: if_splits sum.splits dest: Marshal_SetID)

lemma roundtrip_part0:
  assumes uuid: "uuid_String uid"
    and fresh: "redis_Keys (uid @ ''::*::*'') db = []"
    and store: "Store_part0 uid obj db = (obj', None, db')"
    and nl: "CHR 0x0A \<notin> set (GetName obj)"
  shows "GetObjectByID uid db' = Inr (SetID uid obj) \<and> obj' = SetID uid obj"
proof -
  let ?key = "uid @ ''::'' @ GetName obj @ ''::'' @ GetKind obj"
  note s = Store_part0_success[OF store]
  have chars: "CHR ''*'' \<notin> set uid" "CHR 0x0A \<notin> set uid"
    using uuid by (simp_all add: uuid_String_chars)
  have "glob (uid @ ''::*::*'') ?key" using chars(1) by (rule glob_id_pattern)
  then have keys: "redis_Keys (uid @ ''::*::*'') db' = [?key]"
    unfolding s(2) using fresh by (rule redis_Keys_Set_fresh[rotated])
  have get: "redis_Get ?key db' = Inr (Encoded (SetID uid obj))"
    unfolding s(2) by (rule redis_Get_Set)
  have "getKind ?key = GetKind (SetID uid obj)"
    using getKind_built_key[OF chars(2) nl, of obj] by (simp add: GetKind_SetID)
  then have "extractObject ?key (Encoded (SetID uid obj)) = Inr (SetID uid obj)"
    by (rule extractObject_own_kind)
  then show ?thesis using keys get s(1) by (simp add: GetObjectByID_def)
qed

section \<open>The two variants of Store\<close>

lemma Store_part0_rejects_empty:
  assumes "GetName obj = [] \<or> GetKind obj = []"
  shows "Store_part0 uid obj db = (obj, Some MissingObjectName, db) \<or>
         Store_part0 uid obj db = (obj, Some MissingObjectKind, db)"
  using assms by (auto simp: Store_part0_def)

lemma Marshal_cases: "Marshal obj = Inl MarshalerError \<or> Marshal obj = Inr (Encoded obj)"
  by (cases obj) auto

lemma Marshal_SetID_fails: "Marshal (SetID uid obj) = Inl e \<longleftrightarrow> Marshal obj = Inl e"
  by (cases obj) auto

lemma Store_db_cases:
  "Store_db uid obj db =
     (if Marshal obj = Inl MarshalerError then (obj, Some MarshalerError, db)
      else if Count_delim (uid @ ''::'' @ GetName obj @ ''::'' @ GetKind obj) \<noteq> 2
      then (SetID uid obj, Some RestrictedDelimiter, db)
      else (SetID uid obj, None,
            redis_Set (uid @ ''::'' @ GetName obj @ ''::'' @ GetKind obj) (Encoded obj) db))"
  using Marshal_cases[of obj]
  by (auto simp: Store_db_def Let_def GetName_SetID GetKind_SetID)

lemma GetKind_nonempty: "GetKind obj \<noteq> []"
  by (cases obj) simp_all

lemma Store_part0_cases:
  "Store_part0 uid obj db =
     (if GetName obj = [] then (obj, Some MissingObjectName, db)
      else if Marshal obj = Inl MarshalerError then (SetID uid obj, Some MarshalerError, db)
      else if Count_delim (uid @ ''::'' @ GetName obj @ ''::'' @ GetKind obj) \<noteq> 2
      then (SetID uid obj, Some RestrictedDelimiter, db)
      else (SetID uid obj, None,
            redis_Set (uid @ ''::'' @ GetName obj @ ''::'' @ GetKind obj) (Encoded (SetID uid obj)) db))"
  using Marshal_cases[of "SetID uid obj"] Marshal_SetID_fails[of uid obj MarshalerError]
  by (auto simp: Store_part0_def Let_def GetName_SetID GetKind_SetID GetKind_nonempty)

lemma built_key_count:
  assumes "uuid_String uid"
  shows "Count_delim (uid @ ''::'' @ GetName obj @ ''::'' @ GetKind obj) = 2 \<longleftrightarrow>
         \<not> Contains_delim (GetName obj)"
  using assms by (intro Count_delim_key uuid_String_chars GetKind_no_colon)

section \<open>The scan loop\<close>

lemma extractObject_kind: "extractObject key v = Inr obj \<Longrightarrow> GetKind obj = getKind key"
  by (cases v rule: Unmarshal_Animal.cases)
     (auto simp: extractObject_def Let_def split: if_splits)

lemma listObjects_loop_part0_kinds:
  "listObjects_loop_part0 db keys acc = (objs, None) \<Longrightarrow>
   \<exists>new. objs = acc @ new \<and> list_all2 (\<lambda>key obj. GetKind obj = getKind key) keys new"
proof (induction keys arbitrary: acc)
  case Nil
  then show ?case by simp
next
  case (Cons key keys)
  from Cons.prems obtain v obj where v: "redis_Get key db = Inr v"
    and obj: "extractObject key v = Inr obj"
    and rest: "listObjects_loop_part0 db keys (acc @ [obj]) = (objs, None)"
    by (auto split: sum.splits)
  from Cons.IH[OF rest] obtain new where new: "objs = (acc @ [obj]) @ new"
    and kinds: "list_all2 (\<lambda>key obj. GetKind obj = getKind key) keys new" by blast
  have "objs = acc @ (obj # new)" using new by simp
  moreover have "list_all2 (\<lambda>key obj. GetKind obj = getKind key) (key # keys) (obj # new)"
    using kinds extractObject_kind[OF obj] by simp
  ultimately show ?case by blast
qed

lemma listObjects_part0_kinds:
  assumes "listObjects_part0 pat db = (objs, None)"
  shows "list_all2 (\<lambda>key obj. GetKind obj = getKind key) (redis_Keys pat db) objs"
proof (cases "redis_Keys pat db")
  case Nil
  with assms show ?thesis by (simp add: listObjects_part0_def)
next
  case (Cons key rest)
  with assms have "listObjects_loop_part0 db (key # rest) [] = (objs, None)"
    by (simp add: listObjects_part0_def)
  from listObjects_loop_part0_kinds[OF this] show ?thesis using Cons by simp
qed

lemma listObjects_loop_part0_error:
  "listObjects_loop_part0 db keys acc = (objs, Some e) \<Longrightarrow>
   objs = [] \<and> (\<exists>key\<in>set keys. redis_Get key db = Inl e \<or>
                  (\<exists>v. redis_Get key db = Inr v \<and> extractObject key v = Inl e))"
  by (induction keys arbitrary: acc) (auto split: sum.splits)

lemma listObjects_loop_part0_fails:
  "\<exists>key\<in>set keys. \<exists>v e. redis_Get key db = Inr v \<and> extractObject key v = Inl e \<Longrightarrow>
   \<exists>objs e. listObjects_loop_part0 db keys acc = (objs, Some e)"
proof (induction keys arbitrary: acc)
  case Nil
  then show ?case by simp
next
  case (Cons key keys)
  show ?case
  proof (cases "redis_Get key db")
    case (Inl err)
    then show ?thesis by simp
  next
    case (Inr v)
    show ?thesis
    proof (cases "extractObject key v")
      case (Inl err)
      with Inr show ?thesis by simp
    next
      case obj: (Inr obj)
      with Inr Cons.prems
      have "\<exists>key\<in>set keys. \<exists>v e. redis_Get key db = Inr v \<and> extractObject key v = Inl e"
        by auto
      from Cons.IH[OF this, of "acc @ [obj]"] show ?thesis using Inr obj by simp
    qed
  qed
qed

lemma listObjects_loop_db_error:
  "listObjects_loop_db db key0 keys acc = (objs, Some e) \<Longrightarrow>
   objs = [] \<and> (\<exists>key\<in>set keys. redis_Get key db = Inl e \<or>
                  (\<exists>v. redis_Get key db = Inr v \<and> extractObject key0 v = Inl e))"
  by (induction keys arbitrary: acc) (auto split: sum.splits)

lemma listObjects_loop_db_fails:
  "\<exists>key\<in>set keys. \<exists>v e. redis_Get key db = Inr v \<and> extractObject key0 v = Inl e \<Longrightarrow>
   \<exists>objs e. listObjects_loop_db db key0 keys acc = (objs, Some e)"
proof (induction keys arbitrary: acc)
  case Nil
  then show ?case by simp
next
  case (Cons key keys)
  show ?case
  proof (cases "redis_Get key db")
    case (Inl err)
    then show ?thesis by simp
  next
    case (Inr v)
    show ?thesis
    proof (cases "extractObject key0 v")
      case (Inl err)
      with Inr show ?thesis by simp
    next
      case obj: (Inr obj)
      with Inr Cons.prems
      have "\<exists>key\<in>set keys. \<exists>v e. redis_Get key db = Inr v \<and> extractObject key0 v = Inl e"
        by auto
      from Cons.IH[OF this, of "acc @ [obj]"] show ?thesis using Inr obj by simp
    qed
  qed
qed

lemma listObjects_part0_no_partial:
  "snd (listObjects_part0 pat db) \<noteq> None \<Longrightarrow> fst (listObjects_part0 pat db) = []"
proof (cases "redis_Keys pat db")
  case Nil
  then show ?thesis by (simp add: listObjects_part0_def)
next
  case (Cons key rest)
  assume "snd (listObjects_part0 pat db) \<noteq> None"
  then obtain objs e where "listObjects_loop_part0 db (key # rest) [] = (objs, Some e)"
    using Cons by (cases "listObjects_loop_part0 db (key # rest) []") (auto simp: listObjects_part0_def)
  then show ?thesis using Cons listObjects_loop_part0_error[of db "key # rest" "[]" objs e]
    by (simp add: listObjects_part0_def)
qed

lemma listObjects_db_no_partial:
  "snd (listObjects_db pat db) \<noteq> None \<Longrightarrow> fst (listObjects_db pat db) = []"
proof (cases "redis_Keys pat db")
  case Nil
  then show ?thesis by (simp add: listObjects_db_def)
next
  case (Cons key rest)
  assume "snd (listObjects_db pat db) \<noteq> None"
  then obtain objs e where "listObjects_loop_db db key (key # rest) [] = (objs, Some e)"
    using Cons by (cases "listObjects_loop_db db key (key # rest) []") (auto simp: listObjects_db_def)
  then show ?thesis using Cons listObjects_loop_db_error[of db key "key # rest" "[]" objs e]
    by (simp add: listObjects_db_def)
qed

lemma listObjects_part0_aborts:
  assumes "\<exists>key\<in>set (redis_Keys pat db). \<exists>v e. redis_Get key db = Inr v \<and> extractObject key v = Inl e"
  shows "\<exists>key\<in>set (redis_Keys pat db). \<exists>v e. redis_Get key db = Inr v \<and> extractObject key v = Inl e \<and>
           listObjects_part0 pat db = ([], Some e)"
proof -
  let ?keys = "redis_Keys pat db"
  from assms obtain key rest where keys: "?keys = key # rest" by (cases ?keys) auto
  from listObjects_loop_part0_fails[OF assms, of "[]"]
  obtain objs e where run: "listObjects_loop_part0 db ?keys [] = (objs, Some e)" by blast
  from listObjects_loop_part0_error[OF run]
  obtain k where objs: "objs = []" and k: "k \<in> set ?keys"
    and src: "redis_Get k db = Inl e \<or> (\<exists>v. redis_Get k db = Inr v \<and> extractObject k v = Inl e)"
    by blast
  from redis_Get_listed[OF k] src obtain v where "redis_Get k db = Inr v" "extractObject k v = Inl e"
    by auto
  moreover have "listObjects_part0 pat db = ([], Some e)"
    using run objs keys by (simp add: listObjects_part0_def)
  ultimately show ?thesis using k by blast
qed

lemma listObjects_db_aborts:
  assumes "\<exists>key\<in>set (redis_Keys pat db). \<exists>v e. redis_Get key db = Inr v \<and>
             extractObject (hd (redis_Keys pat db)) v = Inl e"
  shows "\<exists>key\<in>set (redis_Keys pat db). \<exists>v e. redis_Get key db = Inr v \<and>
           extractObject (hd (redis_Keys pat db)) v = Inl e \<and> listObjects_db pat db = ([], Some e)"
proof -
  let ?keys = "redis_Keys pat db"
  from assms obtain key rest where keys: "?keys = key # rest" by (cases ?keys) auto
  from listObjects_loop_db_fails[OF assms, of "[]"]
  obtain objs e where run: "listObjects_loop_db db (hd ?keys) ?keys [] = (objs, Some e)" by blast
  from listObjects_loop_db_error[OF run]
  obtain k where objs: "objs = []" and k: "k \<in> set ?keys"
    and src: "redis_Get k db = Inl e \<or> (\<exists>v. redis_Get k db = Inr v \<and> extractObject (hd ?keys) v = Inl e)"
    by blast
  from redis_Get_listed[OF k] src obtain v where "redis_Get k db = Inr v" "extractObject (hd ?keys) v = Inl e"
    by auto
  moreover have "listObjects_db pat db = ([], Some e)"
    using run objs keys by (simp add: listObjects_db_def)
  ultimately show ?thesis using k by blast
qed

section \<open>Lookup and deletion by id\<close>

lemma single_key: "redis_Keys pat db = [key] \<Longrightarrow> \<exists>v. redis_Get key db = Inr v"
  using redis_Get_listed[of key pat db] by simp

lemma DeleteObject_again:
  assumes "DeleteObject uid db = (None, db')"
  shows "DeleteObject uid db' = (None, db')"
proof (cases "redis_Keys (uid @ ''::*::*'') db")
  case Nil
  with assms show ?thesis by (simp add: DeleteObject_def)
next
  case (Cons key rest)
  with assms have rest: "rest = []" and db': "db' = redis_Del key db"
    by (auto simp: DeleteObject_def Let_def split: if_splits)
  have "redis_Keys (uid @ ''::*::*'') db' = []"
    unfolding db' redis_Keys_Del using Cons rest by simp
  then show ?thesis by (simp add: DeleteObject_def)
qed

lemma redis_Get_Del: "redis_Get k (redis_Del key db) = (if k = key then Inl RedisNil else redis_Get k db)"
  by (simp add: redis_Get_def redis_Del_def delete_conv')

section \<open>The claims\<close>

text \<open>
  C1 (round trip): a record whose name and kind are non-empty and free of the delimiter
  is stored under a fresh id, and \<^verbatim>\<open>GetObjectByID\<close> of that id returns the record with
  the id filled in. The code does not do this. A name that holds a line feed is stored by
  both variants of \<^verbatim>\<open>Store\<close>, and \<^verbatim>\<open>GetObjectByID\<close> then answers "unknown object
  type", because the regular expression of \<^verbatim>\<open>getKind\<close> does not match a key with a
  line feed. In \<^verbatim>\<open>src/db.go\<close> the record is serialised before \<^verbatim>\<open>SetID\<close>, so what
  comes back carries the old id (here the empty one) and not the assigned one. For
  \<^verbatim>\<open>src/unnamed/part_000\<close> and names without a line feed the round trip is
  \<open>roundtrip_part0\<close> above.
\<close>

theorem roundtrip_breaks:
  "fst (snd (Store_part0 uuid1 (getPerson (''a'' @ [CHR 0x0A] @ ''b'')) [])) = None \<and>
   GetObjectByID uuid1 (snd (snd (Store_part0 uuid1 (getPerson (''a'' @ [CHR 0x0A] @ ''b'')) [])))
     = Inl UnknownObjectType \<and>
   fst (snd (Store_db uuid1 (getPerson (''a'' @ [CHR 0x0A] @ ''b'')) [])) = None \<and>
   GetObjectByID uuid1 (snd (snd (Store_db uuid1 (getPerson (''a'' @ [CHR 0x0A] @ ''b'')) [])))
     = Inl UnknownObjectType \<and>
   Store_db uuid1 (getPerson ''alice'') [] =
     (SetID uuid1 (getPerson ''alice''), None,
      [(uuid1 @ ''::alice::*main.Person'', Encoded (getPerson ''alice''))]) \<and>
   GetObjectByID uuid1 (snd (snd (Store_db uuid1 (getPerson ''alice'') []))) = Inr (getPerson ''alice'') \<and>
   GetID (getPerson ''alice'') = []"
  by code_simp

text \<open>
  C2 (name query): \<^verbatim>\<open>GetObjectsByName\<close> returns one record for each matching key,
  each decoded into the type that its own key names. In \<^verbatim>\<open>src/db.go\<close> the loop
  decodes every value with \<^verbatim>\<open>keys[0]\<close>: with a Person and an Animal both named bob
  the Animal comes back as a Person that has lost its type and owner. In both variants a
  name with a line feed makes the whole query fail. For \<^verbatim>\<open>src/unnamed/part_000\<close>
  a query that succeeds has one record for each key, of the kind of that key
  (\<open>listObjects_part0_kinds\<close>).
\<close>

theorem GetObjectsByName_wrong_type:
  "map getKind (redis_Keys ''*::bob::*''
      (snd (snd (Store_db uuid2 (getAnimal ''bob'') (snd (snd (Store_db uuid1 (getPerson ''bob'') [])))))))
     = [''*main.Person'', ''*main.Animal''] \<and>
   GetObjectsByName_db ''bob''
      (snd (snd (Store_db uuid2 (getAnimal ''bob'') (snd (snd (Store_db uuid1 (getPerson ''bob'') []))))))
     = ([getPerson ''bob'', Person ''bob'' [] [] [] zero_time], None) \<and>
   redis_Keys (''*::a'' @ [CHR 0x0A] @ ''b::*'')
      (snd (snd (Store_part0 uuid1 (getPerson (''a'' @ [CHR 0x0A] @ ''b'')) [])))
     = [uuid1 @ ''::a'' @ [CHR 0x0A] @ ''b::*main.Person''] \<and>
   GetObjectsByName_part0 (''a'' @ [CHR 0x0A] @ ''b'')
      (snd (snd (Store_part0 uuid1 (getPerson (''a'' @ [CHR 0x0A] @ ''b'')) [])))
     = ([], Some UnknownObjectType)"
  by code_simp

text \<open>
  C3 (empty name or kind): \<^verbatim>\<open>Store\<close> rejects a record with an empty name or kind
  and writes nothing. \<^verbatim>\<open>src/unnamed/part_000\<close> does
  (\<open>Store_part0_rejects_empty\<close>); \<^verbatim>\<open>src/db.go\<close> has no such check, and a
  Person with the empty name is written under a key with four colons in a row.
\<close>

theorem Store_db_empty_name:
  "GetName (getPerson []) = [] \<and>
   Store_db uuid1 (getPerson []) [] =
     (SetID uuid1 (getPerson []), None, [(uuid1 @ ''::::*main.Person'', Encoded (getPerson []))])"
  by code_simp

text \<open>
  C4 (delimiter rejection), as stated: \<^verbatim>\<open>Store\<close> fails with the delimiter error exactly
  when the built key does not hold exactly two delimiters, in particular for the name
  \<^verbatim>\<open>a::b\<close>. Both variants serialise the record before they count the delimiters, and a
  Person whose birth date lies in the year 10000 does not serialise: its key would hold
  three delimiters, yet the error is the one of \<^verbatim>\<open>json.Marshal\<close>.
\<close>

theorem Store_delimiter_error_counterexample:
  "Count_delim (uuid1 @ ''::'' @ ''a::b'' @ ''::'' @ ''*main.Person'') = 3 \<and>
   Store_part0 uuid1 (Person ''a::b'' [] ''Johnson'' ''01-02-1990'' (Time 10000 0)) [] =
     (Person ''a::b'' uuid1 ''Johnson'' ''01-02-1990'' (Time 10000 0), Some MarshalerError, []) \<and>
   Store_db uuid1 (Person ''a::b'' [] ''Johnson'' ''01-02-1990'' (Time 10000 0)) [] =
     (Person ''a::b'' [] ''Johnson'' ''01-02-1990'' (Time 10000 0), Some MarshalerError, []) \<and>
   fst (snd (Store_part0 uuid1 (Person ''a::b'' [] ''Johnson'' ''01-02-1990'' (Time 10000 0)) []))
     \<noteq> Some RestrictedDelimiter \<and>
   fst (snd (Store_db uuid1 (Person ''a::b'' [] ''Johnson'' ''01-02-1990'' (Time 10000 0)) []))
     \<noteq> Some RestrictedDelimiter"
  by code_simp

text \<open>
  C4, amended: for a generated id, \<^verbatim>\<open>Store\<close> fails with the delimiter error exactly
  when the record serialises and the built key \<^verbatim>\<open>id::name::kind\<close> does not hold exactly
  two delimiters, and then the backend is unchanged. In particular a record named
  \<^verbatim>\<open>a::b\<close> that serialises is rejected with that error, and one named \<^verbatim>\<open>a:b\<close> is
  stored under its key. This holds for both variants; they differ only in the id inside
  the stored document.
\<close>

theorem Store_delimiter_error:
  assumes "uuid_String uid"
  shows
  "(fst (snd (Store_part0 uid obj db)) = Some RestrictedDelimiter \<longleftrightarrow>
      Marshal obj \<noteq> Inl MarshalerError \<and>
      Count_delim (uid @ ''::'' @ GetName obj @ ''::'' @ GetKind obj) \<noteq> 2) \<and>
   (fst (snd (Store_db uid obj db)) = Some RestrictedDelimiter \<longleftrightarrow>
      Marshal obj \<noteq> Inl MarshalerError \<and>
      Count_delim (uid @ ''::'' @ GetName obj @ ''::'' @ GetKind obj) \<noteq> 2) \<and>
   (fst (snd (Store_part0 uid obj db)) = Some RestrictedDelimiter \<longrightarrow>
      snd (snd (Store_part0 uid obj db)) = db) \<and>
   (fst (snd (Store_db uid obj db)) = Some RestrictedDelimiter \<longrightarrow>
      snd (snd (Store_db uid obj db)) = db) \<and>
   (GetName obj = ''a::b'' \<and> Marshal obj \<noteq> Inl MarshalerError \<longrightarrow>
      Store_part0 uid obj db = (SetID uid obj, Some RestrictedDelimiter, db) \<and>
      Store_db uid obj db = (SetID uid obj, Some RestrictedDelimiter, db)) \<and>
   (GetName obj = ''a:b'' \<and> Marshal obj \<noteq> Inl MarshalerError \<longrightarrow>
      Store_part0 uid obj db =
        (SetID uid obj, None,
         redis_Set (uid @ ''::a:b::'' @ GetKind obj) (Encoded (SetID uid obj)) db) \<and>
      Store_db uid obj db =
        (SetID uid obj, None, redis_Set (uid @ ''::a:b::'' @ GetKind obj) (Encoded obj) db))"
proof -
  note count = built_key_count[OF assms, of obj]
  have empty: "GetName obj = [] \<Longrightarrow>
      Count_delim (uid @ ''::'' @ GetName obj @ ''::'' @ GetKind obj) = 2"
    using count by simp
  have p0: "fst (snd (Store_part0 uid obj db)) = Some RestrictedDelimiter \<longleftrightarrow>
      Marshal obj \<noteq> Inl MarshalerError \<and>
      Count_delim (uid @ ''::'' @ GetName obj @ ''::'' @ GetKind obj) \<noteq> 2"
    using empty by (auto simp: Store_part0_cases)
  have d: "fst (snd (Store_db uid obj db)) = Some RestrictedDelimiter \<longleftrightarrow>
      Marshal obj \<noteq> Inl MarshalerError \<and>
      Count_delim (uid @ ''::'' @ GetName obj @ ''::'' @ GetKind obj) \<noteq> 2"
    by (auto simp: Store_db_cases)
  have p0_frame: "fst (snd (Store_part0 uid obj db)) = Some RestrictedDelimiter \<longrightarrow>
      snd (snd (Store_part0 uid obj db)) = db"
    by (auto simp: Store_part0_cases)
  have d_frame: "fst (snd (Store_db uid obj db)) = Some RestrictedDelimiter \<longrightarrow>
      snd (snd (Store_db uid obj db)) = db"
    by (auto simp: Store_db_cases)
  have bad: "Store_part0 uid obj db = (SetID uid obj, Some RestrictedDelimiter, db) \<and>
      Store_db uid obj db = (SetID uid obj, Some RestrictedDelimiter, db)"
    if "GetName obj = ''a::b''" "Marshal obj \<noteq> Inl MarshalerError"
  proof -
    have "Contains_delim (GetName obj)" using that(1) by simp
    then have "Count_delim (uid @ ''::'' @ GetName obj @ ''::'' @ GetKind obj) \<noteq> 2"
      using count by simp
    moreover have "GetName obj \<noteq> []" using that(1) by simp
    ultimately show ?thesis using that(2) by (simp only: Store_part0_cases Store_db_cases if_False if_True simp_thms)
  qed
  have good: "Store_part0 uid obj db =
        (SetID uid obj, None,
         redis_Set (uid @ ''::a:b::'' @ GetKind obj) (Encoded (SetID uid obj)) db) \<and>
      Store_db uid obj db =
        (SetID uid obj, None, redis_Set (uid @ ''::a:b::'' @ GetKind obj) (Encoded obj) db)"
    if "GetName obj = ''a:b''" "Marshal obj \<noteq> Inl MarshalerError"
  proof -
    have "\<not> Contains_delim (GetName obj)" using that(1) by simp
    then have c: "Count_delim (uid @ ''::'' @ GetName obj @ ''::'' @ GetKind obj) = 2"
      using count by simp
    have n: "GetName obj \<noteq> []" using that(1) by simp
    have "Store_part0 uid obj db = (SetID uid obj, None,
            redis_Set (uid @ ''::'' @ GetName obj @ ''::'' @ GetKind obj) (Encoded (SetID uid obj)) db)"
      using c n that(2) by (simp only: Store_part0_cases if_False if_True simp_thms)
    moreover have "Store_db uid obj db = (SetID uid obj, None,
            redis_Set (uid @ ''::'' @ GetName obj @ ''::'' @ GetKind obj) (Encoded obj) db)"
      using c n that(2) by (simp only: Store_db_cases if_False if_True simp_thms)
    ultimately show ?thesis using that(1) by simp
  qed
  from p0 d p0_frame d_frame bad good show ?thesis by blast
qed

theorem Store_delimiter_error_witness:
  "uuid_String uuid1 \<and>
   Marshal (getPerson ''a::b'') \<noteq> Inl MarshalerError \<and>
   Count_delim (uuid1 @ ''::'' @ GetName (getPerson ''a::b'') @ ''::'' @ GetKind (getPerson ''a::b'')) \<noteq> 2 \<and>
   Store_part0 uuid1 (getPerson ''a::b'') [] = (SetID uuid1 (getPerson ''a::b''), Some RestrictedDelimiter, []) \<and>
   Store_db uuid1 (getPerson ''a::b'') [] = (SetID uuid1 (getPerson ''a::b''), Some RestrictedDelimiter, []) \<and>
   Marshal (getPerson ''a:b'') \<noteq> Inl MarshalerError \<and>
   Store_part0 uuid1 (getPerson ''a:b'') [] =
     (SetID uuid1 (getPerson ''a:b''), None,
      [(uuid1 @ ''::a:b::*main.Person'', Encoded (SetID uuid1 (getPerson ''a:b'')))]) \<and>
   Store_db uuid1 (getPerson ''a:b'') [] =
     (SetID uuid1 (getPerson ''a:b''), None,
      [(uuid1 @ ''::a:b::*main.Person'', Encoded (getPerson ''a:b''))])"
proof -
  have u: "uuid_String uuid1" by code_simp
  have m1: "Marshal (getPerson ''a::b'') \<noteq> Inl MarshalerError" by code_simp
  have n1: "GetName (getPerson ''a::b'') = ''a::b''" by code_simp
  have m2: "Marshal (getPerson ''a:b'') \<noteq> Inl MarshalerError" by code_simp
  have n2: "GetName (getPerson ''a:b'') = ''a:b''" by code_simp
  note bad = Store_delimiter_error[OF u, of "getPerson ''a::b''" "[]"]
  note good = Store_delimiter_error[OF u, of "getPerson ''a:b''" "[]"]
  have b: "Store_part0 uuid1 (getPerson ''a::b'') [] = (SetID uuid1 (getPerson ''a::b''), Some RestrictedDelimiter, [])"
     "Store_db uuid1 (getPerson ''a::b'') [] = (SetID uuid1 (getPerson ''a::b''), Some RestrictedDelimiter, [])"
    using bad m1 n1 by blast+
  then have "fst (snd (Store_part0 uuid1 (getPerson ''a::b'') [])) = Some RestrictedDelimiter" by simp
  with bad have c: "Count_delim (uuid1 @ ''::'' @ GetName (getPerson ''a::b'') @ ''::'' @ GetKind (getPerson ''a::b'')) \<noteq> 2"
    by blast
  have g: "Store_part0 uuid1 (getPerson ''a:b'') [] =
        (SetID uuid1 (getPerson ''a:b''), None,
         redis_Set (uuid1 @ ''::a:b::'' @ GetKind (getPerson ''a:b'')) (Encoded (SetID uuid1 (getPerson ''a:b''))) [])"
     "Store_db uuid1 (getPerson ''a:b'') [] =
        (SetID uuid1 (getPerson ''a:b''), None,
         redis_Set (uuid1 @ ''::a:b::'' @ GetKind (getPerson ''a:b'')) (Encoded (getPerson ''a:b'')) [])"
    using good m2 n2 by blast+
  have s1: "redis_Set (uuid1 @ ''::a:b::'' @ GetKind (getPerson ''a:b'')) (Encoded (SetID uuid1 (getPerson ''a:b''))) []
      = [(uuid1 @ ''::a:b::*main.Person'', Encoded (SetID uuid1 (getPerson ''a:b'')))]"
    by (simp add: redis_Set_def getPerson_def)
  have s2: "redis_Set (uuid1 @ ''::a:b::'' @ GetKind (getPerson ''a:b'')) (Encoded (getPerson ''a:b'')) []
      = [(uuid1 @ ''::a:b::*main.Person'', Encoded (getPerson ''a:b''))]"
    by (simp add: redis_Set_def getPerson_def)
  from u m1 c b m2 g[unfolded s1 s2] show ?thesis by blast
qed

text \<open>
  C5 (lookup by id): \<^verbatim>\<open>GetObjectByID\<close> depends on the number of keys that match the
  pattern \<^verbatim>\<open>id::*::*\<close>. No key gives "object not found"; more than one gives "multiple
  objects with the same ID"; exactly one key gives the value stored under it, decoded as
  the type that \<^verbatim>\<open>getKind\<close> reads from that key.
\<close>

theorem GetObjectByID_trichotomy:
  "(redis_Keys (uid @ ''::*::*'') db = [] \<longrightarrow> GetObjectByID uid db = Inl ObjectNotFound) \<and>
   (1 < length (redis_Keys (uid @ ''::*::*'') db) \<longrightarrow> GetObjectByID uid db = Inl MultipleObjects) \<and>
   (\<forall>key. redis_Keys (uid @ ''::*::*'') db = [key] \<longrightarrow>
      (\<exists>v. redis_Get key db = Inr v \<and>
           GetObjectByID uid db =
             (if getKind key = ''*main.Animal'' then Unmarshal_Animal v
              else if getKind key = ''*main.Person'' then Unmarshal_Person v
              else Inl UnknownObjectType)))"
proof (intro conjI allI impI)
  assume "redis_Keys (uid @ ''::*::*'') db = []"
  then show "GetObjectByID uid db = Inl ObjectNotFound" by (simp add: GetObjectByID_def)
next
  assume "1 < length (redis_Keys (uid @ ''::*::*'') db)"
  then show "GetObjectByID uid db = Inl MultipleObjects" by (auto simp: GetObjectByID_def Let_def)
next
  fix key
  assume one: "redis_Keys (uid @ ''::*::*'') db = [key]"
  then obtain v where v: "redis_Get key db = Inr v" using single_key by blast
  have "GetObjectByID uid db = extractObject key v"
    using one v by (simp add: GetObjectByID_def)
  then show "\<exists>v. redis_Get key db = Inr v \<and>
           GetObjectByID uid db =
             (if getKind key = ''*main.Animal'' then Unmarshal_Animal v
              else if getKind key = ''*main.Person'' then Unmarshal_Person v
              else Inl UnknownObjectType)"
    using v by (simp add: extractObject_def)
qed

theorem GetObjectByID_trichotomy_witness:
  "redis_Keys (uuid1 @ ''::*::*'') [] = [] \<and>
   GetObjectByID uuid1 [] = Inl ObjectNotFound \<and>
   1 < length (redis_Keys (uuid1 @ ''::*::*'')
         [(uuid1 @ ''::tom::*main.Animal'', Encoded (getAnimal ''tom'')),
          (uuid1 @ ''::tim::*main.Person'', Encoded (getPerson ''tim''))]) \<and>
   GetObjectByID uuid1
         [(uuid1 @ ''::tom::*main.Animal'', Encoded (getAnimal ''tom'')),
          (uuid1 @ ''::tim::*main.Person'', Encoded (getPerson ''tim''))] = Inl MultipleObjects \<and>
   redis_Keys (uuid1 @ ''::*::*'') [(uuid1 @ ''::tom::*main.Animal'', Encoded (getAnimal ''tom''))]
     = [uuid1 @ ''::tom::*main.Animal''] \<and>
   GetObjectByID uuid1 [(uuid1 @ ''::tom::*main.Animal'', Encoded (getAnimal ''tom''))]
     = Inr (getAnimal ''tom'')"
proof -
  let ?k1 = "uuid1 @ ''::tom::*main.Animal''"
  let ?db1 = "[(?k1, Encoded (getAnimal ''tom''))]"
  let ?db2 = "[(?k1, Encoded (getAnimal ''tom'')),
               (uuid1 @ ''::tim::*main.Person'', Encoded (getPerson ''tim''))]"
  have h0: "redis_Keys (uuid1 @ ''::*::*'') [] = []" by code_simp
  have h2: "1 < length (redis_Keys (uuid1 @ ''::*::*'') ?db2)" by code_simp
  have h1: "redis_Keys (uuid1 @ ''::*::*'') ?db1 = [?k1]" by code_simp
  have c0: "GetObjectByID uuid1 [] = Inl ObjectNotFound"
    using GetObjectByID_trichotomy[of uuid1 "[]"] h0 by blast
  have c2: "GetObjectByID uuid1 ?db2 = Inl MultipleObjects"
    using GetObjectByID_trichotomy[of uuid1 ?db2] h2 by blast
  from GetObjectByID_trichotomy[of uuid1 ?db1] h1
  obtain v where v: "redis_Get ?k1 ?db1 = Inr v"
    and r: "GetObjectByID uuid1 ?db1 =
             (if getKind ?k1 = ''*main.Animal'' then Unmarshal_Animal v
              else if getKind ?k1 = ''*main.Person'' then Unmarshal_Person v
              else Inl UnknownObjectType)" by blast
  have "redis_Get ?k1 ?db1 = Inr (Encoded (getAnimal ''tom''))" by code_simp
  with v have v': "v = Encoded (getAnimal ''tom'')" by simp
  have k: "getKind ?k1 = ''*main.Animal''" by code_simp
  have "Unmarshal_Animal (Encoded (getAnimal ''tom'')) = Inr (getAnimal ''tom'')" by code_simp
  with r v' k have c1: "GetObjectByID uuid1 ?db1 = Inr (getAnimal ''tom'')" by simp
  from h0 c0 h2 c2 h1 c1 show ?thesis by blast
qed

text \<open>
  C6 (kind extraction): for a key with at least one delimiter \<^verbatim>\<open>getKind\<close> returns
  the text after the last one. It does so when the key has no line feed
  (\<open>getKind_last_delim\<close>). \<^verbatim>\<open>Store\<close> accepts a name with a line feed; on the key
  it writes, \<^verbatim>\<open>getKind\<close> returns the empty string instead of \<^verbatim>\<open>*main.Person\<close>.
\<close>

theorem getKind_newline_key:
  "Store_part0 uuid1 (getPerson (''a'' @ [CHR 0x0A] @ ''b'')) [] =
     (SetID uuid1 (getPerson (''a'' @ [CHR 0x0A] @ ''b'')), None,
      [(uuid1 @ ''::a'' @ [CHR 0x0A] @ ''b::*main.Person'',
        Encoded (SetID uuid1 (getPerson (''a'' @ [CHR 0x0A] @ ''b''))))]) \<and>
   getKind (uuid1 @ ''::a'' @ [CHR 0x0A] @ ''b::*main.Person'') = []"
  by code_simp

text \<open>
  C7 (idempotent delete): with no matching key \<^verbatim>\<open>DeleteObject\<close> succeeds and leaves
  the backend as it is; with more than one it fails with "multiple objects with the same
  ID" and changes nothing; with exactly one it succeeds, that key is gone afterwards and
  every other key keeps its value. A delete that has succeeded succeeds again on the
  resulting backend and leaves it unchanged.
\<close>

theorem DeleteObject_idempotent:
  "(redis_Keys (uid @ ''::*::*'') db = [] \<longrightarrow> DeleteObject uid db = (None, db)) \<and>
   (1 < length (redis_Keys (uid @ ''::*::*'') db) \<longrightarrow> DeleteObject uid db = (Some MultipleObjects, db)) \<and>
   (\<forall>key. redis_Keys (uid @ ''::*::*'') db = [key] \<longrightarrow>
      DeleteObject uid db = (None, redis_Del key db) \<and>
      redis_Get key (redis_Del key db) = Inl RedisNil \<and>
      (\<forall>k. k \<noteq> key \<longrightarrow> redis_Get k (redis_Del key db) = redis_Get k db)) \<and>
   (\<forall>db'. DeleteObject uid db = (None, db') \<longrightarrow> DeleteObject uid db' = (None, db'))"
proof (intro conjI allI impI)
  assume "redis_Keys (uid @ ''::*::*'') db = []"
  then show "DeleteObject uid db = (None, db)" by (simp add: DeleteObject_def)
next
  assume "1 < length (redis_Keys (uid @ ''::*::*'') db)"
  then show "DeleteObject uid db = (Some MultipleObjects, db)" by (auto simp: DeleteObject_def Let_def)
next
  fix key
  assume "redis_Keys (uid @ ''::*::*'') db = [key]"
  then show "DeleteObject uid db = (None, redis_Del key db)" by (simp add: DeleteObject_def)
next
  fix key
  show "redis_Get key (redis_Del key db) = Inl RedisNil" by (simp add: redis_Get_Del)
next
  fix key k :: string
  assume "k \<noteq> key"
  then show "redis_Get k (redis_Del key db) = redis_Get k db" by (simp add: redis_Get_Del)
next
  fix db'
  assume "DeleteObject uid db = (None, db')"
  then show "DeleteObject uid db' = (None, db')" by (rule DeleteObject_again)
qed

theorem DeleteObject_idempotent_witness:
  "redis_Keys (uuid1 @ ''::*::*'') [(uuid2 @ ''::tim::*main.Person'', Encoded (getPerson ''tim''))] = [] \<and>
   DeleteObject uuid1 [(uuid2 @ ''::tim::*main.Person'', Encoded (getPerson ''tim''))]
     = (None, [(uuid2 @ ''::tim::*main.Person'', Encoded (getPerson ''tim''))]) \<and>
   1 < length (redis_Keys (uuid1 @ ''::*::*'')
         [(uuid1 @ ''::tom::*main.Animal'', Encoded (getAnimal ''tom'')),
          (uuid1 @ ''::tim::*main.Person'', Encoded (getPerson ''tim''))]) \<and>
   DeleteObject uuid1
         [(uuid1 @ ''::tom::*main.Animal'', Encoded (getAnimal ''tom'')),
          (uuid1 @ ''::tim::*main.Person'', Encoded (getPerson ''tim''))]
     = (Some MultipleObjects,
         [(uuid1 @ ''::tom::*main.Animal'', Encoded (getAnimal ''tom'')),
          (uuid1 @ ''::tim::*main.Person'', Encoded (getPerson ''tim''))]) \<and>
   redis_Keys (uuid1 @ ''::*::*'')
         [(uuid1 @ ''::tom::*main.Animal'', Encoded (getAnimal ''tom'')),
          (uuid2 @ ''::tim::*main.Person'', Encoded (getPerson ''tim''))]
     = [uuid1 @ ''::tom::*main.Animal''] \<and>
   DeleteObject uuid1
         [(uuid1 @ ''::tom::*main.Animal'', Encoded (getAnimal ''tom'')),
          (uuid2 @ ''::tim::*main.Person'', Encoded (getPerson ''tim''))]
     = (None, [(uuid2 @ ''::tim::*main.Person'', Encoded (getPerson ''tim''))]) \<and>
   DeleteObject uuid1 [(uuid2 @ ''::tim::*main.Person'', Encoded (getPerson ''tim''))]
     = (None, [(uuid2 @ ''::tim::*main.Person'', Encoded (getPerson ''tim''))])"
proof -
  let ?k1 = "uuid1 @ ''::tom::*main.Animal''"
  let ?other = "(uuid2 @ ''::tim::*main.Person'', Encoded (getPerson ''tim''))"
  let ?db0 = "[?other]"
  let ?db1 = "[(?k1, Encoded (getAnimal ''tom'')), ?other]"
  let ?db2 = "[(?k1, Encoded (getAnimal ''tom'')),
               (uuid1 @ ''::tim::*main.Person'', Encoded (getPerson ''tim''))]"
  have h0: "redis_Keys (uuid1 @ ''::*::*'') ?db0 = []" by code_simp
  have h2: "1 < length (redis_Keys (uuid1 @ ''::*::*'') ?db2)" by code_simp
  have h1: "redis_Keys (uuid1 @ ''::*::*'') ?db1 = [?k1]" by code_simp
  have c0: "DeleteObject uuid1 ?db0 = (None, ?db0)"
    using DeleteObject_idempotent[of uuid1 ?db0] h0 by blast
  have c2: "DeleteObject uuid1 ?db2 = (Some MultipleObjects, ?db2)"
    using DeleteObject_idempotent[of uuid1 ?db2] h2 by blast
  have "DeleteObject uuid1 ?db1 = (None, redis_Del ?k1 ?db1)"
    using DeleteObject_idempotent[of uuid1 ?db1] h1 by blast
  moreover have "redis_Del ?k1 ?db1 = ?db0" by code_simp
  ultimately have c1: "DeleteObject uuid1 ?db1 = (None, ?db0)" by simp
  have c3: "DeleteObject uuid1 ?db0 = (None, ?db0)"
    using DeleteObject_idempotent[of uuid1 ?db1] c1 by blast
  from h0 c0 h2 c2 h1 c1 c3 show ?thesis by blast
qed

text \<open>
  C8 (fail-fast scans): whenever \<^verbatim>\<open>GetObjectsByName\<close> or \<^verbatim>\<open>ListObjects\<close> returns an
  error, the slice it returns is empty; and when decoding fails for a matched key, the
  call returns the error of such a failure and no records. In
  \<^verbatim>\<open>src/unnamed/part_000\<close> a value is decoded with its own key, in \<^verbatim>\<open>src/db.go\<close>
  with the first key of the scan; the statement follows each variant's own call of
  \<^verbatim>\<open>extractObject\<close>.
\<close>

theorem scan_aborts_on_bad_record:
  "(snd (GetObjectsByName_part0 name db) \<noteq> None \<longrightarrow> fst (GetObjectsByName_part0 name db) = []) \<and>
   (snd (ListObjects_part0 kind db) \<noteq> None \<longrightarrow> fst (ListObjects_part0 kind db) = []) \<and>
   (snd (GetObjectsByName_db name db) \<noteq> None \<longrightarrow> fst (GetObjectsByName_db name db) = []) \<and>
   (snd (ListObjects_db kind db) \<noteq> None \<longrightarrow> fst (ListObjects_db kind db) = []) \<and>
   (name \<noteq> [] \<and>
    (\<exists>key\<in>set (redis_Keys (''*::'' @ name @ ''::*'') db). \<exists>v e.
        redis_Get key db = Inr v \<and> extractObject key v = Inl e) \<longrightarrow>
    (\<exists>key\<in>set (redis_Keys (''*::'' @ name @ ''::*'') db). \<exists>v e.
        redis_Get key db = Inr v \<and> extractObject key v = Inl e \<and>
        GetObjectsByName_part0 name db = ([], Some e))) \<and>
   (kind \<noteq> [] \<and>
    (\<exists>key\<in>set (redis_Keys (''*::*::'' @ kind) db). \<exists>v e.
        redis_Get key db = Inr v \<and> extractObject key v = Inl e) \<longrightarrow>
    (\<exists>key\<in>set (redis_Keys (''*::*::'' @ kind) db). \<exists>v e.
        redis_Get key db = Inr v \<and> extractObject key v = Inl e \<and>
        ListObjects_part0 kind db = ([], Some e))) \<and>
   (name \<noteq> [] \<and>
    (\<exists>key\<in>set (redis_Keys (''*::'' @ name @ ''::*'') db). \<exists>v e.
        redis_Get key db = Inr v \<and>
        extractObject (hd (redis_Keys (''*::'' @ name @ ''::*'') db)) v = Inl e) \<longrightarrow>
    (\<exists>key\<in>set (redis_Keys (''*::'' @ name @ ''::*'') db). \<exists>v e.
        redis_Get key db = Inr v \<and>
        extractObject (hd (redis_Keys (''*::'' @ name @ ''::*'') db)) v = Inl e \<and>
        GetObjectsByName_db name db = ([], Some e))) \<and>
   (kind \<noteq> [] \<and>
    (\<exists>key\<in>set (redis_Keys (''*::*::'' @ kind) db). \<exists>v e.
        redis_Get key db = Inr v \<and>
        extractObject (hd (redis_Keys (''*::*::'' @ kind) db)) v = Inl e) \<longrightarrow>
    (\<exists>key\<in>set (redis_Keys (''*::*::'' @ kind) db). \<exists>v e.
        redis_Get key db = Inr v \<and>
        extractObject (hd (redis_Keys (''*::*::'' @ kind) db)) v = Inl e \<and>
        ListObjects_db kind db = ([], Some e)))"
proof (intro conjI impI)
  assume "snd (GetObjectsByName_part0 name db) \<noteq> None"
  then show "fst (GetObjectsByName_part0 name db) = []"
    using listObjects_part0_no_partial[of "''*::'' @ name @ ''::*''" db]
    by (simp add: GetObjectsByName_part0_def split: if_splits)
next
  assume "snd (ListObjects_part0 kind db) \<noteq> None"
  then show "fst (ListObjects_part0 kind db) = []"
    using listObjects_part0_no_partial[of "''*::*::'' @ kind" db]
    by (simp add: ListObjects_part0_def split: if_splits)
next
  assume "snd (GetObjectsByName_db name db) \<noteq> None"
  then show "fst (GetObjectsByName_db name db) = []"
    using listObjects_db_no_partial[of "''*::'' @ name @ ''::*''" db]
    by (simp add: GetObjectsByName_db_def split: if_splits)
next
  assume "snd (ListObjects_db kind db) \<noteq> None"
  then show "fst (ListObjects_db kind db) = []"
    using listObjects_db_no_partial[of "''*::*::'' @ kind" db]
    by (simp add: ListObjects_db_def split: if_splits)
next
  assume a: "name \<noteq> [] \<and>
    (\<exists>key\<in>set (redis_Keys (''*::'' @ name @ ''::*'') db). \<exists>v e.
        redis_Get key db = Inr v \<and> extractObject key v = Inl e)"
  then have "GetObjectsByName_part0 name db = listObjects_part0 (''*::'' @ name @ ''::*'') db"
    by (simp add: GetObjectsByName_part0_def)
  with a show "\<exists>key\<in>set (redis_Keys (''*::'' @ name @ ''::*'') db). \<exists>v e.
        redis_Get key db = Inr v \<and> extractObject key v = Inl e \<and>
        GetObjectsByName_part0 name db = ([], Some e)"
    using listObjects_part0_aborts[of "''*::'' @ name @ ''::*''" db] by simp
next
  assume a: "kind \<noteq> [] \<and>
    (\<exists>key\<in>set (redis_Keys (''*::*::'' @ kind) db). \<exists>v e.
        redis_Get key db = Inr v \<and> extractObject key v = Inl e)"
  then have "ListObjects_part0 kind db = listObjects_part0 (''*::*::'' @ kind) db"
    by (simp add: ListObjects_part0_def)
  with a show "\<exists>key\<in>set (redis_Keys (''*::*::'' @ kind) db). \<exists>v e.
        redis_Get key db = Inr v \<and> extractObject key v = Inl e \<and>
        ListObjects_part0 kind db = ([], Some e)"
    using listObjects_part0_aborts[of "''*::*::'' @ kind" db] by simp
next
  assume a: "name \<noteq> [] \<and>
    (\<exists>key\<in>set (redis_Keys (''*::'' @ name @ ''::*'') db). \<exists>v e.
        redis_Get key db = Inr v \<and>
        extractObject (hd (redis_Keys (''*::'' @ name @ ''::*'') db)) v = Inl e)"
  then have "GetObjectsByName_db name db = listObjects_db (''*::'' @ name @ ''::*'') db"
    by (simp add: GetObjectsByName_db_def)
  with a show "\<exists>key\<in>set (redis_Keys (''*::'' @ name @ ''::*'') db). \<exists>v e.
        redis_Get key db = Inr v \<and>
        extractObject (hd (redis_Keys (''*::'' @ name @ ''::*'') db)) v = Inl e \<and>
        GetObjectsByName_db name db = ([], Some e)"
    using listObjects_db_aborts[of "''*::'' @ name @ ''::*''" db] by simp
next
  assume a: "kind \<noteq> [] \<and>
    (\<exists>key\<in>set (redis_Keys (''*::*::'' @ kind) db). \<exists>v e.
        redis_Get key db = Inr v \<and>
        extractObject (hd (redis_Keys (''*::*::'' @ kind) db)) v = Inl e)"
  then have "ListObjects_db kind db = listObjects_db (''*::*::'' @ kind) db"
    by (simp add: ListObjects_db_def)
  with a show "\<exists>key\<in>set (redis_Keys (''*::*::'' @ kind) db). \<exists>v e.
        redis_Get key db = Inr v \<and>
        extractObject (hd (redis_Keys (''*::*::'' @ kind) db)) v = Inl e \<and>
        ListObjects_db kind db = ([], Some e)"
    using listObjects_db_aborts[of "''*::*::'' @ kind" db] by simp
qed

theorem scan_aborts_on_bad_record_witness:
  "redis_Keys ''*::fluffy::*''
      [(uuid1 @ ''::fluffy::*main.Animal'', Encoded (SetID uuid1 (getAnimal ''fluffy''))),
       (uuid2 @ ''::fluffy::*main.Animal'', Malformed ''oops'')]
     = [uuid1 @ ''::fluffy::*main.Animal'', uuid2 @ ''::fluffy::*main.Animal''] \<and>
   redis_Keys ''*::*::*main.Animal''
      [(uuid1 @ ''::fluffy::*main.Animal'', Encoded (SetID uuid1 (getAnimal ''fluffy''))),
       (uuid2 @ ''::fluffy::*main.Animal'', Malformed ''oops'')]
     = [uuid1 @ ''::fluffy::*main.Animal'', uuid2 @ ''::fluffy::*main.Animal''] \<and>
   extractObject (uuid2 @ ''::fluffy::*main.Animal'') (Malformed ''oops'') = Inl UnmarshalError \<and>
   extractObject (uuid1 @ ''::fluffy::*main.Animal'') (Malformed ''oops'') = Inl UnmarshalError \<and>
   (\<exists>e. GetObjectsByName_part0 ''fluffy''
      [(uuid1 @ ''::fluffy::*main.Animal'', Encoded (SetID uuid1 (getAnimal ''fluffy''))),
       (uuid2 @ ''::fluffy::*main.Animal'', Malformed ''oops'')] = ([], Some e)) \<and>
   (\<exists>e. ListObjects_part0 ''*main.Animal''
      [(uuid1 @ ''::fluffy::*main.Animal'', Encoded (SetID uuid1 (getAnimal ''fluffy''))),
       (uuid2 @ ''::fluffy::*main.Animal'', Malformed ''oops'')] = ([], Some e)) \<and>
   (\<exists>e. GetObjectsByName_db ''fluffy''
      [(uuid1 @ ''::fluffy::*main.Animal'', Encoded (SetID uuid1 (getAnimal ''fluffy''))),
       (uuid2 @ ''::fluffy::*main.Animal'', Malformed ''oops'')] = ([], Some e)) \<and>
   (\<exists>e. ListObjects_db ''*main.Animal''
      [(uuid1 @ ''::fluffy::*main.Animal'', Encoded (SetID uuid1 (getAnimal ''fluffy''))),
       (uuid2 @ ''::fluffy::*main.Animal'', Malformed ''oops'')] = ([], Some e)) \<and>
   snd (GetObjectsByName_part0 ''fluffy''
      [(uuid1 @ ''::fluffy::*main.Animal'', Encoded (SetID uuid1 (getAnimal ''fluffy''))),
       (uuid2 @ ''::fluffy::*main.Animal'', Malformed ''oops'')]) \<noteq> None \<and>
   fst (GetObjectsByName_part0 ''fluffy''
      [(uuid1 @ ''::fluffy::*main.Animal'', Encoded (SetID uuid1 (getAnimal ''fluffy''))),
       (uuid2 @ ''::fluffy::*main.Animal'', Malformed ''oops'')]) = [] \<and>
   snd (ListObjects_db ''*main.Animal''
      [(uuid1 @ ''::fluffy::*main.Animal'', Encoded (SetID uuid1 (getAnimal ''fluffy''))),
       (uuid2 @ ''::fluffy::*main.Animal'', Malformed ''oops'')]) \<noteq> None \<and>
   fst (ListObjects_db ''*main.Animal''
      [(uuid1 @ ''::fluffy::*main.Animal'', Encoded (SetID uuid1 (getAnimal ''fluffy''))),
       (uuid2 @ ''::fluffy::*main.Animal'', Malformed ''oops'')]) = []"
proof -
  let ?k1 = "uuid1 @ ''::fluffy::*main.Animal''"
  let ?k2 = "uuid2 @ ''::fluffy::*main.Animal''"
  let ?db = "[(?k1, Encoded (SetID uuid1 (getAnimal ''fluffy''))), (?k2, Malformed ''oops'')]"
  note inst = scan_aborts_on_bad_record[of "''fluffy''" ?db "''*main.Animal''"]
  have kn: "redis_Keys ''*::fluffy::*'' ?db = [?k1, ?k2]" by code_simp
  have kk: "redis_Keys ''*::*::*main.Animal'' ?db = [?k1, ?k2]" by code_simp
  have get: "redis_Get ?k2 ?db = Inr (Malformed ''oops'')" by code_simp
  have bad2: "extractObject ?k2 (Malformed ''oops'') = Inl UnmarshalError" by code_simp
  have bad1: "extractObject ?k1 (Malformed ''oops'') = Inl UnmarshalError" by code_simp
  have hn: "\<exists>key\<in>set (redis_Keys (''*::'' @ ''fluffy'' @ ''::*'') ?db). \<exists>v e.
        redis_Get key ?db = Inr v \<and> extractObject key v = Inl e"
    using kn get bad2 by simp
  have hk: "\<exists>key\<in>set (redis_Keys (''*::*::'' @ ''*main.Animal'') ?db). \<exists>v e.
        redis_Get key ?db = Inr v \<and> extractObject key v = Inl e"
    using kk get bad2 by simp
  have hn0: "\<exists>key\<in>set (redis_Keys (''*::'' @ ''fluffy'' @ ''::*'') ?db). \<exists>v e.
        redis_Get key ?db = Inr v \<and>
        extractObject (hd (redis_Keys (''*::'' @ ''fluffy'' @ ''::*'') ?db)) v = Inl e"
    using kn get bad1 by simp
  have hk0: "\<exists>key\<in>set (redis_Keys (''*::*::'' @ ''*main.Animal'') ?db). \<exists>v e.
        redis_Get key ?db = Inr v \<and>
        extractObject (hd (redis_Keys (''*::*::'' @ ''*main.Animal'') ?db)) v = Inl e"
    using kk get bad1 by simp
  have ne: "''fluffy'' \<noteq> []" "''*main.Animal'' \<noteq> []" by simp_all
  have c1: "\<exists>e. GetObjectsByName_part0 ''fluffy'' ?db = ([], Some e)"
    using inst hn ne(1) by blast
  have c2: "\<exists>e. ListObjects_part0 ''*main.Animal'' ?db = ([], Some e)"
    using inst hk ne(2) by blast
  have c3: "\<exists>e. GetObjectsByName_db ''fluffy'' ?db = ([], Some e)"
    using inst hn0 ne(1) by blast
  have c4: "\<exists>e. ListObjects_db ''*main.Animal'' ?db = ([], Some e)"
    using inst hk0 ne(2) by blast
  have e1: "snd (GetObjectsByName_part0 ''fluffy'' ?db) \<noteq> None" using c1 by auto
  have f1: "fst (GetObjectsByName_part0 ''fluffy'' ?db) = []" using inst e1 by blast
  have e4: "snd (ListObjects_db ''*main.Animal'' ?db) \<noteq> None" using c4 by auto
  have f4: "fst (ListObjects_db ''*main.Animal'' ?db) = []" using inst e4 by blast
  from kn kk bad2 bad1 c1 c2 c3 c4 e1 f1 e4 f4 show ?thesis by blast
qed

text \<open>
  C9 (id overwritten by a failed Store), as stated: for every record whose name holds the
  delimiter, \<^verbatim>\<open>Store\<close> returns the delimiter error and has overwritten the id. A Person
  born in the year 10000 does not serialise: both variants return the error of
  \<^verbatim>\<open>json.Marshal\<close> instead, and \<^verbatim>\<open>src/db.go\<close>, which serialises first, leaves the id
  as it was.
\<close>

theorem Store_failure_id_counterexample:
  "Contains_delim (GetName (Person ''x::y'' ''old'' [] [] (Time 10000 0))) \<and>
   Store_db uuid1 (Person ''x::y'' ''old'' [] [] (Time 10000 0)) [] =
     (Person ''x::y'' ''old'' [] [] (Time 10000 0), Some MarshalerError, []) \<and>
   Store_part0 uuid1 (Person ''x::y'' ''old'' [] [] (Time 10000 0)) [] =
     (Person ''x::y'' uuid1 [] [] (Time 10000 0), Some MarshalerError, []) \<and>
   fst (snd (Store_part0 uuid1 (Person ''x::y'' ''old'' [] [] (Time 10000 0)) []))
     \<noteq> Some RestrictedDelimiter \<and>
   fst (snd (Store_db uuid1 (Person ''x::y'' ''old'' [] [] (Time 10000 0)) []))
     \<noteq> Some RestrictedDelimiter \<and>
   GetID (fst (Store_db uuid1 (Person ''x::y'' ''old'' [] [] (Time 10000 0)) [])) = ''old''"
  by code_simp

text \<open>
  C9, amended: for every record whose name holds the delimiter and which serialises,
  \<^verbatim>\<open>Store\<close> returns the delimiter error and writes nothing, and the caller's record
  carries the generated id afterwards. Both variants.
\<close>

theorem Store_failure_overwrites_id:
  assumes "uuid_String uid" and "Contains_delim (GetName obj)"
    and "Marshal obj \<noteq> Inl MarshalerError"
  shows "Store_part0 uid obj db = (SetID uid obj, Some RestrictedDelimiter, db) \<and>
         Store_db uid obj db = (SetID uid obj, Some RestrictedDelimiter, db) \<and>
         GetID (SetID uid obj) = uid"
proof -
  have c: "Count_delim (uid @ ''::'' @ GetName obj @ ''::'' @ GetKind obj) \<noteq> 2"
    using built_key_count[OF assms(1), of obj] assms(2) by simp
  have n: "GetName obj \<noteq> []" using assms(2) by auto
  have "Store_part0 uid obj db = (SetID uid obj, Some RestrictedDelimiter, db)"
    using c n assms(3) by (simp only: Store_part0_cases if_False if_True simp_thms)
  moreover have "Store_db uid obj db = (SetID uid obj, Some RestrictedDelimiter, db)"
    using c assms(3) by (simp only: Store_db_cases if_False if_True simp_thms)
  moreover have "GetID (SetID uid obj) = uid" by (cases obj) (simp_all add: GetID_def)
  ultimately show ?thesis by simp
qed

theorem Store_failure_overwrites_id_witness:
  "uuid_String uuid1 \<and> Contains_delim (GetName (getPerson ''test::test'')) \<and>
   Marshal (getPerson ''test::test'') \<noteq> Inl MarshalerError \<and>
   Store_part0 uuid1 (getPerson ''test::test'') [] =
     (SetID uuid1 (getPerson ''test::test''), Some RestrictedDelimiter, []) \<and>
   Store_db uuid1 (getPerson ''test::test'') [] =
     (SetID uuid1 (getPerson ''test::test''), Some RestrictedDelimiter, []) \<and>
   GetID (getPerson ''test::test'') = [] \<and>
   GetID (SetID uuid1 (getPerson ''test::test'')) = uuid1"
proof -
  have u: "uuid_String uuid1" by code_simp
  have c: "Contains_delim (GetName (getPerson ''test::test''))" by code_simp
  have m: "Marshal (getPerson ''test::test'') \<noteq> Inl MarshalerError" by code_simp
  have old: "GetID (getPerson ''test::test'') = []" by code_simp
  from Store_failure_overwrites_id[OF u c m, of "[]"] u c m old show ?thesis by blast
qed

text \<open>
  C10 (wildcards in arguments): the argument is put into the pattern as it is. With one
  Person named alice in the backend, \<^verbatim>\<open>GetObjectsByName("*")\<close> returns her although her
  name is not \<^verbatim>\<open>*\<close>, and \<^verbatim>\<open>ListObjects("*")\<close> returns her although her kind is
  \<^verbatim>\<open>*main.Person\<close>; so in both variants of the store.
\<close>

theorem wildcard_arguments:
  "GetObjectsByName_part0 ''*'' (snd (snd (Store_part0 uuid1 (getPerson ''alice'') [])))
     = ([SetID uuid1 (getPerson ''alice'')], None) \<and>
   ListObjects_part0 ''*'' (snd (snd (Store_part0 uuid1 (getPerson ''alice'') [])))
     = ([SetID uuid1 (getPerson ''alice'')], None) \<and>
   GetObjectsByName_db ''*'' (snd (snd (Store_db uuid1 (getPerson ''alice'') [])))
     = ([getPerson ''alice''], None) \<and>
   ListObjects_db ''*'' (snd (snd (Store_db uuid1 (getPerson ''alice'') [])))
     = ([getPerson ''alice''], None) \<and>
   GetName (SetID uuid1 (getPerson ''alice'')) = ''alice'' \<and>
   GetKind (SetID uuid1 (getPerson ''alice'')) = ''*main.Person'' \<and>
   GetName (getPerson ''alice'') = ''alice'' \<and>
   GetKind (getPerson ''alice'') = ''*main.Person''"
  by code_simp

end
